theory Spec2Isabelle
  imports Complex_Main
begin

section \<open>Synthetic raster and spectral signature\<close>

text \<open>
  A shallow embedding of \<^verbatim>\<open>synthetic_raster_spectral_signature.py\<close>. Finite
  \<^verbatim>\<open>float64\<close> values are modelled as exact reals: rounding is not modelled. The
  one operation of the script that can leave the finite range, the division, returns a
  value of \<open>float64\<close> below. The numpy generator is not part of the repository: seeding
  (\<^verbatim>\<open>np.random.default_rng\<close>) and the drawing of one normal sample are parameters,
  with the generator state passed explicitly. Files, the plot and console output are not
  modelled.
\<close>

subsection \<open>Values and errors\<close>

datatype error = IndexError | ValueError

datatype float64 = Finite real | PosInf | NegInf | NaN

text \<open>Division of two finite numpy scalars: a zero divisor raises nothing.\<close>

definition fdiv :: "real \<Rightarrow> real \<Rightarrow> float64" where
  "fdiv a b =
     (if b = 0 then (if a = 0 then NaN else if 0 < a then PosInf else NegInf)
      else Finite (a / b))"

type_synonym grid = "real list list"
type_synonym cube = "real list list list"

subsection \<open>Band metadata\<close>

definition BANDS :: "string list" where
  "BANDS = [''Blue'', ''Green'', ''Red'', ''NIR'', ''SWIR1'', ''SWIR2'']"

definition WAVELENGTH_NM :: "int list" where
  "WAVELENGTH_NM = [490, 560, 665, 865, 1610, 2200]"

definition N_BANDS :: nat where
  "N_BANDS = length BANDS"

definition ROWS :: nat where
  "ROWS = 3"

definition COLS :: nat where
  "COLS = 3"

subsection \<open>Raster synthesis\<close>

definition BASE :: "real list" where
  "BASE = [0.12, 0.18, 0.22, 0.46, 0.31, 0.27]"

text \<open>\<^verbatim>\<open>np.zeros((N_BANDS, ROWS, COLS))\<close>\<close>

definition zeros :: "nat \<Rightarrow> nat \<Rightarrow> nat \<Rightarrow> cube" where
  "zeros nb nr nc = replicate nb (replicate nr (replicate nc 0))"

text \<open>
  \<^verbatim>\<open>rng.normal(loc, scale, size=(rows, cols))\<close>: \<open>draw\<close> is the generator's single
  sample at the given location and scale; the array is filled in row-major order and the
  generator state is threaded through.
\<close>

fun normal_row :: "('s \<Rightarrow> real \<times> 's) \<Rightarrow> nat \<Rightarrow> 's \<Rightarrow> real list \<times> 's" where
  "normal_row draw 0 s = ([], s)"
| "normal_row draw (Suc n) s =
     (case draw s of (x, s') \<Rightarrow>
        (case normal_row draw n s' of (xs, s'') \<Rightarrow> (x # xs, s'')))"

fun normal_grid :: "('s \<Rightarrow> real \<times> 's) \<Rightarrow> nat \<Rightarrow> nat \<Rightarrow> 's \<Rightarrow> grid \<times> 's" where
  "normal_grid draw 0 nc s = ([], s)"
| "normal_grid draw (Suc nr) nc s =
     (case normal_row draw nc s of (r, s') \<Rightarrow>
        (case normal_grid draw nr nc s' of (rs, s'') \<Rightarrow> (r # rs, s'')))"


text \<open>
  \<^verbatim>\<open>(np.arange(ROWS).reshape(-1, 1) * 0.01) + (np.arange(COLS) * 0.005)\<close>, a
  \<open>ROWS \<times> COLS\<close> array by broadcasting.
\<close>

definition grad :: grid where
  "grad = map (\<lambda>r. map (\<lambda>c. real r * 0.01 + real c * 0.005) [0..<COLS]) [0..<ROWS]"

text \<open>
  \<^verbatim>\<open>BASE[b] + grad + noise\<close>. Both arrays have shape \<open>(ROWS, COLS)\<close> by
  construction, so the elementwise sum is a \<open>map2\<close>; \<open>b\<close> ranges over
  \<^verbatim>\<open>range(N_BANDS)\<close> and \<open>BASE\<close> has \<open>N_BANDS\<close> entries.
\<close>

definition band_values :: "nat \<Rightarrow> grid \<Rightarrow> grid" where
  "band_values b noise =
     map2 (\<lambda>gs ns. map2 (\<lambda>g n. BASE ! b + g + n) gs ns) grad noise"

text \<open>The loop \<^verbatim>\<open>for b in range(N_BANDS)\<close> over the raster and the generator.\<close>

fun fill_bands ::
  "(real \<Rightarrow> real \<Rightarrow> 's \<Rightarrow> real \<times> 's) \<Rightarrow> nat list \<Rightarrow> cube \<Rightarrow> 's \<Rightarrow> cube \<times> 's" where
  "fill_bands normal [] raster rng = (raster, rng)"
| "fill_bands normal (b # bs) raster rng =
     (case normal_grid (normal 0 0.002) ROWS COLS rng of (noise, rng') \<Rightarrow>
        fill_bands normal bs (raster[b := band_values b noise]) rng')"

text \<open>\<^verbatim>\<open>np.clip(raster, lo, hi)\<close>: \<open>minimum(maximum(x, lo), hi)\<close> on every element.\<close>

definition clip1 :: "real \<Rightarrow> real \<Rightarrow> real \<Rightarrow> real" where
  "clip1 x lo hi = min (max x lo) hi"

definition clip :: "cube \<Rightarrow> real \<Rightarrow> real \<Rightarrow> cube" where
  "clip a lo hi = map (map (map (\<lambda>x. clip1 x lo hi))) a"

text \<open>
  Lines 19 to 27 of the script for a given seed: the generator is created once, the
  bands are filled in order, the result is clipped. The final generator state is returned
  with the raster.
\<close>

definition synthesize ::
  "(nat \<Rightarrow> 's) \<Rightarrow> (real \<Rightarrow> real \<Rightarrow> 's \<Rightarrow> real \<times> 's) \<Rightarrow> nat \<Rightarrow> cube \<times> 's" where
  "synthesize default_rng normal seed =
     (case fill_bands normal [0..<N_BANDS] (zeros N_BANDS ROWS COLS) (default_rng seed) of
        (raster, rng') \<Rightarrow> (clip raster 0 1, rng'))"

text \<open>
  The seed of \<^verbatim>\<open>rng = np.random.default_rng(42)\<close>, and the module-level
  \<^verbatim>\<open>raster\<close> the later stages read.
\<close>

definition SEED :: nat where
  "SEED = 42"

definition raster_of ::
  "(nat \<Rightarrow> 's) \<Rightarrow> (real \<Rightarrow> real \<Rightarrow> 's \<Rightarrow> real \<times> 's) \<Rightarrow> cube" where
  "raster_of default_rng normal = fst (synthesize default_rng normal SEED)"

text \<open>\<^verbatim>\<open>raster.shape\<close> of a rectangular array.\<close>

definition is_grid :: "grid \<Rightarrow> nat \<Rightarrow> nat \<Rightarrow> bool" where
  "is_grid g nr nc = (length g = nr \<and> list_all (\<lambda>r. length r = nc) g)"

definition has_shape :: "cube \<Rightarrow> nat \<Rightarrow> nat \<Rightarrow> nat \<Rightarrow> bool" where
  "has_shape a nb nr nc = (length a = nb \<and> list_all (\<lambda>band. is_grid band nr nc) a)"

subsection \<open>Georeferencing\<close>

definition CRS :: string where
  "CRS = ''EPSG:4326''"

definition X0 :: real where "X0 = - 59.0"
definition Y0 :: real where "Y0 = 15.0"
definition XRES :: real where "XRES = 0.01"
definition YRES :: real where "YRES = 0.01"

definition rowcol_to_xy ::
  "real \<Rightarrow> real \<Rightarrow> real \<Rightarrow> real \<Rightarrow> real \<Rightarrow> real \<Rightarrow> bool \<Rightarrow> real \<times> real" where
  "rowcol_to_xy row col x0 y0 xres yres center =
     (if center then (x0 + (col + 0.5) * xres, y0 - (row + 0.5) * yres)
      else (x0 + col * xres, y0 - row * yres))"

subsection \<open>Pixel spectrum\<close>

text \<open>The fixed pixel \<^verbatim>\<open>row, col = 1, 2\<close> of the script.\<close>

definition pixel_row :: nat where "pixel_row = 1"
definition pixel_col :: nat where "pixel_col = 2"

text \<open>
  \<^verbatim>\<open>raster[:, row, col]\<close> for nonnegative indices: an index outside the array raises
  IndexError.
\<close>

definition pixel_slice :: "cube \<Rightarrow> nat \<Rightarrow> nat \<Rightarrow> error + real list" where
  "pixel_slice a row col =
     (if list_all (\<lambda>band. row < length band \<and> col < length (band ! row)) a
      then Inr (map (\<lambda>band. band ! row ! col) a)
      else Inl IndexError)"

record df_row =
  Band :: string
  Wavelength_nm :: int
  Reflectance :: real

text \<open>
  \<^verbatim>\<open>pd.DataFrame({...})\<close> of three columns: columns of different lengths raise
  ValueError.
\<close>

definition DataFrame :: "string list \<Rightarrow> int list \<Rightarrow> real list \<Rightarrow> error + df_row list" where
  "DataFrame bs ws rs =
     (if length bs = length ws \<and> length ws = length rs
      then Inr (map (\<lambda>(b, w, r). \<lparr>Band = b, Wavelength_nm = w, Reflectance = r\<rparr>)
                  (zip bs (zip ws rs)))
      else Inl ValueError)"

text \<open>
  \<^verbatim>\<open>.sort_values("Wavelength_nm")\<close>, ascending. The order of rows with equal keys
  is the insertion sort's here; the registry's wavelengths are distinct.
\<close>

definition sort_values :: "df_row list \<Rightarrow> df_row list" where
  "sort_values d = sort_key Wavelength_nm d"

definition spectrum :: "cube \<Rightarrow> nat \<Rightarrow> nat \<Rightarrow> error + df_row list" where
  "spectrum a row col =
     (case pixel_slice a row col of
        Inl e \<Rightarrow> Inl e
      | Inr pixel_spectrum \<Rightarrow>
          (case DataFrame BANDS WAVELENGTH_NM pixel_spectrum of
             Inl e \<Rightarrow> Inl e
           | Inr d \<Rightarrow> Inr (sort_values d)))"

subsection \<open>Vegetation index\<close>

text \<open>
  \<^verbatim>\<open>df.loc[df["Band"] == name, "Reflectance"]\<close> and \<^verbatim>\<open>.iloc[0]\<close>, which raises
  IndexError on an empty selection.
\<close>

definition loc_reflectance :: "df_row list \<Rightarrow> string \<Rightarrow> real list" where
  "loc_reflectance d name = map Reflectance (filter (\<lambda>r. Band r = name) d)"

definition iloc0 :: "real list \<Rightarrow> error + real" where
  "iloc0 xs = (case xs of [] \<Rightarrow> Inl IndexError | x # _ \<Rightarrow> Inr x)"

definition ndvi :: "df_row list \<Rightarrow> error + float64" where
  "ndvi d =
     (case iloc0 (loc_reflectance d ''NIR'') of
        Inl e \<Rightarrow> Inl e
      | Inr nir \<Rightarrow>
          (case iloc0 (loc_reflectance d ''Red'') of
             Inl e \<Rightarrow> Inl e
           | Inr red \<Rightarrow> Inr (fdiv (nir - red) (nir + red))))"

subsection \<open>Band statistics\<close>

record band_stat =
  stat_name :: string
  stat_min :: real
  stat_max :: real
  stat_mean :: float64

text \<open>
  \<^verbatim>\<open>band_data.min()\<close> and \<^verbatim>\<open>.max()\<close> over all elements raise ValueError on an
  array without elements; \<^verbatim>\<open>.mean()\<close> is the sum divided by the count.
\<close>

definition amin :: "real list \<Rightarrow> error + real" where
  "amin xs = (case xs of [] \<Rightarrow> Inl ValueError | x # ys \<Rightarrow> Inr (fold min ys x))"

definition amax :: "real list \<Rightarrow> error + real" where
  "amax xs = (case xs of [] \<Rightarrow> Inl ValueError | x # ys \<Rightarrow> Inr (fold max ys x))"

definition amean :: "real list \<Rightarrow> float64" where
  "amean xs = fdiv (sum_list xs) (real (length xs))"

definition band_record :: "string \<Rightarrow> grid \<Rightarrow> error + band_stat" where
  "band_record name band_data =
     (case amin (concat band_data) of
        Inl e \<Rightarrow> Inl e
      | Inr lo \<Rightarrow>
          (case amax (concat band_data) of
             Inl e \<Rightarrow> Inl e
           | Inr hi \<Rightarrow>
               Inr \<lparr>stat_name = name, stat_min = lo, stat_max = hi,
                    stat_mean = amean (concat band_data)\<rparr>))"

text \<open>
  The statistics of one band as the specification words them: the minimum, the maximum
  and the arithmetic mean of all its elements. \<open>band_record\<close> above is the code; the
  two are compared below.
\<close>

definition summary :: "string \<Rightarrow> grid \<Rightarrow> band_stat" where
  "summary name band_data =
     \<lparr>stat_name = name, stat_min = Min (set (concat band_data)),
      stat_max = Max (set (concat band_data)),
      stat_mean = Finite (sum_list (concat band_data) / real (length (concat band_data)))\<rparr>"

text \<open>
  The loop \<^verbatim>\<open>for b, band_name in enumerate(BANDS)\<close>; \<^verbatim>\<open>raster[b]\<close> raises
  IndexError past the last band.
\<close>

fun stats_loop :: "cube \<Rightarrow> (nat \<times> string) list \<Rightarrow> error + band_stat list" where
  "stats_loop a [] = Inr []"
| "stats_loop a ((b, band_name) # rest) =
     (if b < length a
      then (case band_record band_name (a ! b) of
              Inl e \<Rightarrow> Inl e
            | Inr st \<Rightarrow>
                (case stats_loop a rest of
                   Inl e \<Rightarrow> Inl e
                 | Inr sts \<Rightarrow> Inr (st # sts)))
      else Inl IndexError)"

definition band_statistics :: "cube \<Rightarrow> error + band_stat list" where
  "band_statistics a = stats_loop a (enumerate 0 BANDS)"

subsection \<open>The script\<close>

record outputs =
  out_raster :: cube
  out_lonlat :: "real \<times> real"
  out_df :: "df_row list"
  out_ndvi :: float64
  out_stats :: "band_stat list"

definition script ::
  "(nat \<Rightarrow> 's) \<Rightarrow> (real \<Rightarrow> real \<Rightarrow> 's \<Rightarrow> real \<times> 's) \<Rightarrow> error + outputs" where
  "script default_rng normal =
     (let raster = raster_of default_rng normal;
          lonlat = rowcol_to_xy (real pixel_row) (real pixel_col) X0 Y0 XRES YRES True
      in case spectrum raster pixel_row pixel_col of
           Inl e \<Rightarrow> Inl e
         | Inr d \<Rightarrow>
             (case ndvi d of
                Inl e \<Rightarrow> Inl e
              | Inr v \<Rightarrow>
                  (case band_statistics raster of
                     Inl e \<Rightarrow> Inl e
                   | Inr sts \<Rightarrow>
                       Inr \<lparr>out_raster = raster, out_lonlat = lonlat, out_df = d,
                            out_ndvi = v, out_stats = sts\<rparr>)))"

section \<open>Shape and range of the raster\<close>

lemma normal_row_length: "length (fst (normal_row draw n s)) = n"
proof (induction n arbitrary: s)
  case 0
  then show ?case by simp
next
  case (Suc n)
  obtain x s' where x: "draw s = (x, s')" by (cases "draw s")
  obtain xs s'' where xs: "normal_row draw n s' = (xs, s'')" by (cases "normal_row draw n s'")
  have "length xs = n" using Suc [of s'] xs by simp
  then show ?case using x xs by simp
qed

lemma normal_grid_is_grid: "is_grid (fst (normal_grid draw nr nc s)) nr nc"
proof (induction nr arbitrary: s)
  case 0
  then show ?case by (simp add: is_grid_def)
next
  case (Suc nr)
  obtain r s' where r: "normal_row draw nc s = (r, s')" by (cases "normal_row draw nc s")
  obtain rs s'' where rs: "normal_grid draw nr nc s' = (rs, s'')"
    by (cases "normal_grid draw nr nc s'")
  have "length r = nc" using normal_row_length [of draw nc s] r by simp
  moreover have "is_grid rs nr nc" using Suc [of s'] rs by simp
  ultimately show ?case using r rs by (simp add: is_grid_def)
qed

lemma grad_is_grid: "is_grid grad ROWS COLS"
  by (simp add: is_grid_def grad_def list_all_iff)

lemma band_values_is_grid:
  assumes "is_grid noise ROWS COLS"
  shows "is_grid (band_values b noise) ROWS COLS"
proof -
  have len: "length (band_values b noise) = ROWS"
    using assms grad_is_grid by (simp add: band_values_def is_grid_def)
  have "length r = COLS" if "r \<in> set (band_values b noise)" for r
  proof -
    from that obtain gs ns where "(gs, ns) \<in> set (zip grad noise)"
      and r: "r = map2 (\<lambda>g n. BASE ! b + g + n) gs ns"
      by (auto simp: band_values_def)
    then have "gs \<in> set grad" "ns \<in> set noise" by (auto dest: set_zip_leftD set_zip_rightD)
    then have "length gs = COLS" "length ns = COLS"
      using assms grad_is_grid by (auto simp: is_grid_def list_all_iff)
    then show ?thesis using r by simp
  qed
  then show ?thesis using len by (simp add: is_grid_def list_all_iff)
qed

lemma has_shape_update:
  assumes "has_shape a nb nr nc" and "is_grid g nr nc"
  shows "has_shape (a[b := g]) nb nr nc"
  using assms set_update_subset_insert [of a b g]
  by (auto simp: has_shape_def list_all_iff)

lemma fill_bands_shape:
  "has_shape a nb ROWS COLS \<Longrightarrow> has_shape (fst (fill_bands nm bs a s)) nb ROWS COLS"
proof (induction bs arbitrary: a s)
  case Nil
  then show ?case by simp
next
  case (Cons b bs)
  obtain noise s' where n: "normal_grid (nm 0 0.002) ROWS COLS s = (noise, s')"
    by (cases "normal_grid (nm 0 0.002) ROWS COLS s")
  have "is_grid noise ROWS COLS"
    using normal_grid_is_grid [of "nm 0 0.002" ROWS COLS s] n by simp
  then have "has_shape (a[b := band_values b noise]) nb ROWS COLS"
    using Cons.prems by (intro has_shape_update band_values_is_grid)
  then show ?case using Cons.IH n by simp
qed

lemma zeros_shape: "has_shape (zeros nb nr nc) nb nr nc"
  by (simp add: zeros_def has_shape_def is_grid_def list_all_iff)

lemma clip_shape: "has_shape a nb nr nc \<Longrightarrow> has_shape (clip a lo hi) nb nr nc"
  by (simp add: clip_def has_shape_def is_grid_def list_all_iff)

lemma clip_range:
  "lo \<le> hi \<Longrightarrow> list_all (list_all (list_all (\<lambda>x. lo \<le> x \<and> x \<le> hi))) (clip a lo hi)"
  by (auto simp: clip_def clip1_def list_all_iff)

lemma raster_of_eq:
  "raster_of dr nm =
     clip (fst (fill_bands nm [0..<N_BANDS] (zeros N_BANDS ROWS COLS) (dr SEED))) 0 1"
  by (simp add: raster_of_def synthesize_def split: prod.splits)

lemma raster_of_shape: "has_shape (raster_of dr nm) N_BANDS ROWS COLS"
  unfolding raster_of_eq by (intro clip_shape fill_bands_shape zeros_shape)

lemma raster_of_range: "list_all (list_all (list_all (\<lambda>x. 0 \<le> x \<and> x \<le> 1))) (raster_of dr nm)"
  unfolding raster_of_eq by (rule clip_range) simp

section \<open>Georeferencing\<close>

text \<open>
  Claim C3. For every row and column, the centred transform returns
  \<open>lon = origin_x + (col + 0.5) * x_res\<close> and \<open>lat = origin_y - (row + 0.5) * y_res\<close>,
  the uncentred one \<open>lon = origin_x + col * x_res\<close> and \<open>lat = origin_y - row * y_res\<close>;
  and the centre of pixel (1, 2) for origin (-59, 15) and resolution 0.01 is
  (-58.975, 14.985) within 1e-5.
\<close>

theorem rowcol_to_xy_formula:
  "rowcol_to_xy row col x0 y0 xres yres True = (x0 + (col + 0.5) * xres, y0 - (row + 0.5) * yres)
   \<and> rowcol_to_xy row col x0 y0 xres yres False = (x0 + col * xres, y0 - row * yres)
   \<and> (case rowcol_to_xy 1 2 (- 59.0) 15.0 0.01 0.01 True of
        (lon, lat) \<Rightarrow> \<bar>lon - (- 58.97500)\<bar> < 0.00001 \<and> \<bar>lat - 14.98500\<bar> < 0.00001)"
  by (simp add: rowcol_to_xy_def)


section \<open>Vegetation index\<close>

text \<open>
  Claim C8. The division of the vegetation index is not guarded: when the NIR and Red
  reflectances found in the spectrum sum to exactly zero, \<open>ndvi\<close> returns a value and no
  error, and the value is not-a-number or an infinity.
\<close>

theorem ndvi_zero_denominator:
  assumes "iloc0 (loc_reflectance d ''NIR'') = Inr nir"
    and "iloc0 (loc_reflectance d ''Red'') = Inr red"
    and "nir + red = 0"
  shows "ndvi d = Inr (if nir = red then NaN else if red < nir then PosInf else NegInf)"
  using assms by (auto simp: ndvi_def fdiv_def)

theorem ndvi_zero_denominator_witness:
  "ndvi [\<lparr>Band = ''Red'', Wavelength_nm = 665, Reflectance = 0\<rparr>,
         \<lparr>Band = ''NIR'', Wavelength_nm = 865, Reflectance = 0\<rparr>] = Inr NaN"
  using ndvi_zero_denominator
    [of "[\<lparr>Band = ''Red'', Wavelength_nm = 665, Reflectance = 0\<rparr>,
          \<lparr>Band = ''NIR'', Wavelength_nm = 865, Reflectance = 0\<rparr>]" 0 0]
  by (simp add: iloc0_def loc_reflectance_def)

text \<open>
  Claim C9. For a spectrum whose NIR and Red reflectances are nonnegative with a positive
  sum, the vegetation index is the finite value \<open>(nir - red) / (nir + red)\<close>, and it lies
  in the interval from -1 to 1.
\<close>

theorem ndvi_range:
  assumes "iloc0 (loc_reflectance d ''NIR'') = Inr nir"
    and "iloc0 (loc_reflectance d ''Red'') = Inr red"
    and "0 \<le> nir" and "0 \<le> red" and "0 < nir + red"
  shows "ndvi d = Inr (Finite ((nir - red) / (nir + red)))
         \<and> - 1 \<le> (nir - red) / (nir + red) \<and> (nir - red) / (nir + red) \<le> 1"
proof -
  have "ndvi d = Inr (Finite ((nir - red) / (nir + red)))"
    using assms by (simp add: ndvi_def fdiv_def)
  moreover have "- 1 \<le> (nir - red) / (nir + red)"
    using assms by (simp add: pos_le_divide_eq)
  moreover have "(nir - red) / (nir + red) \<le> 1"
    using assms by (simp add: pos_divide_le_eq)
  ultimately show ?thesis by simp
qed

theorem ndvi_range_witness:
  "ndvi [\<lparr>Band = ''Red'', Wavelength_nm = 665, Reflectance = 0.24\<rparr>,
         \<lparr>Band = ''NIR'', Wavelength_nm = 865, Reflectance = 0.48\<rparr>] = Inr (Finite (1 / 3))
   \<and> - 1 \<le> ((0.48 :: real) - 0.24) / (0.48 + 0.24)
   \<and> ((0.48 :: real) - 0.24) / (0.48 + 0.24) \<le> 1"
  using ndvi_range
    [of "[\<lparr>Band = ''Red'', Wavelength_nm = 665, Reflectance = 0.24\<rparr>,
          \<lparr>Band = ''NIR'', Wavelength_nm = 865, Reflectance = 0.48\<rparr>]" "0.48" "0.24"]
  by (simp add: iloc0_def loc_reflectance_def)

section \<open>Pixel spectrum\<close>

lemma list6:
  "length (a :: 'a list) = 6 \<Longrightarrow> \<exists>b0 b1 b2 b3 b4 b5. a = [b0, b1, b2, b3, b4, b5]"
  by (auto simp: length_Suc_conv eval_nat_numeral)

lemma list3:
  "length (a :: 'a list) = 3 \<Longrightarrow> \<exists>b0 b1 b2. a = [b0, b1, b2]"
  by (auto simp: length_Suc_conv eval_nat_numeral)

lemma pixel_slice_ok:
  assumes "has_shape a nb nr nc" and "row < nr" and "col < nc"
  shows "pixel_slice a row col = Inr (map (\<lambda>band. band ! row ! col) a)"
proof -
  have "row < length band \<and> col < length (band ! row)" if "band \<in> set a" for band
  proof -
    from that assms(1) have g: "is_grid band nr nc" by (simp add: has_shape_def list_all_iff)
    then have "row < length band" using assms(2) by (simp add: is_grid_def)
    moreover from this have "band ! row \<in> set band" by simp
    then have "length (band ! row) = nc" using g by (simp add: is_grid_def list_all_iff)
    ultimately show ?thesis using assms(3) by simp
  qed
  then show ?thesis by (simp add: pixel_slice_def list_all_iff)
qed

lemma sort_values_registry:
  assumes "length ps = 6" and "DataFrame BANDS WAVELENGTH_NM ps = Inr d"
  shows "sort_values d = d" and "map Band d = BANDS" and "map Wavelength_nm d = WAVELENGTH_NM"
    and "map Reflectance d = ps"
proof -
  from list6 [OF assms(1)] obtain p0 p1 p2 p3 p4 p5 where ps: "ps = [p0, p1, p2, p3, p4, p5]"
    by blast
  have d: "d = [\<lparr>Band = ''Blue'', Wavelength_nm = 490, Reflectance = p0\<rparr>,
                \<lparr>Band = ''Green'', Wavelength_nm = 560, Reflectance = p1\<rparr>,
                \<lparr>Band = ''Red'', Wavelength_nm = 665, Reflectance = p2\<rparr>,
                \<lparr>Band = ''NIR'', Wavelength_nm = 865, Reflectance = p3\<rparr>,
                \<lparr>Band = ''SWIR1'', Wavelength_nm = 1610, Reflectance = p4\<rparr>,
                \<lparr>Band = ''SWIR2'', Wavelength_nm = 2200, Reflectance = p5\<rparr>]"
    using assms(2) by (simp add: ps DataFrame_def BANDS_def WAVELENGTH_NM_def)
  show "sort_values d = d" by (simp add: d sort_values_def)
  show "map Band d = BANDS" by (simp add: d BANDS_def)
  show "map Wavelength_nm d = WAVELENGTH_NM" by (simp add: d WAVELENGTH_NM_def)
  show "map Reflectance d = ps" by (simp add: d ps)
qed

lemma DataFrame_registry_ok:
  "length ps = 6 \<Longrightarrow> \<exists>d. DataFrame BANDS WAVELENGTH_NM ps = Inr d"
  by (simp add: DataFrame_def BANDS_def WAVELENGTH_NM_def)

lemma spectrum_unsorted:
  assumes "has_shape a 6 nr nc" and "row < nr" and "col < nc"
  shows "spectrum a row col = DataFrame BANDS WAVELENGTH_NM (map (\<lambda>band. band ! row ! col) a)"
proof -
  let ?ps = "map (\<lambda>band. band ! row ! col) a"
  have len: "length ?ps = 6" using assms(1) by (simp add: has_shape_def)
  from DataFrame_registry_ok [OF len] obtain d where d: "DataFrame BANDS WAVELENGTH_NM ?ps = Inr d"
    by blast
  have "sort_values d = d" using sort_values_registry(1) [OF len d] .
  then show ?thesis
    using pixel_slice_ok [OF assms] d by (simp add: spectrum_def)
qed

lemma N_BANDS_6: "N_BANDS = 6"
  by (simp add: N_BANDS_def BANDS_def)

lemma raster_of_shape6: "has_shape (raster_of dr nm) 6 ROWS COLS"
  using raster_of_shape [of dr nm] by (simp only: N_BANDS_6)

text \<open>
  Claim C4. For every pixel \<open>(row, col)\<close> of the raster, the extraction succeeds, the
  spectrum has exactly 6 rows, and its wavelengths are strictly ascending.
\<close>

theorem spectrum_sorted:
  assumes "row < ROWS" and "col < COLS"
  shows "\<exists>d. spectrum (raster_of dr nm) row col = Inr d \<and> length d = 6
             \<and> sorted_wrt (<) (map Wavelength_nm d)"
proof -
  let ?ps = "map (\<lambda>band. band ! row ! col) (raster_of dr nm)"
  have len: "length ?ps = 6" using raster_of_shape6 [of dr nm] by (simp add: has_shape_def)
  from DataFrame_registry_ok [OF len] obtain d where d: "DataFrame BANDS WAVELENGTH_NM ?ps = Inr d"
    by blast
  have "spectrum (raster_of dr nm) row col = Inr d"
    using spectrum_unsorted [OF raster_of_shape6 [of dr nm] assms] d by simp
  moreover have "length d = 6"
    using sort_values_registry(4) [OF len d] len by (metis length_map)
  moreover have "sorted_wrt (<) (map Wavelength_nm d)"
    using sort_values_registry(3) [OF len d] by (simp add: WAVELENGTH_NM_def)
  ultimately show ?thesis by blast
qed

theorem spectrum_sorted_witness:
  "\<exists>d. spectrum (raster_of (\<lambda>n::nat. n) (\<lambda>loc scale s. (loc, Suc s))) 1 2 = Inr d
        \<and> length d = 6 \<and> sorted_wrt (<) (map Wavelength_nm d)"
proof -
  have "(1::nat) < ROWS" and "(2::nat) < COLS" by (simp_all add: ROWS_def COLS_def)
  from spectrum_sorted [OF this, where dr = "\<lambda>n::nat. n" and nm = "\<lambda>loc scale s. (loc, Suc s)"]
  show ?thesis .
qed

text \<open>
  Claim C7, as stated, fails: the registry's declaration order does not differ from the
  ascending-wavelength order. Sorting the wavelengths changes nothing, and the sorted frame
  of a pixel lists the bands in declaration order.
\<close>

theorem registry_order_counterexample:
  "sort WAVELENGTH_NM = WAVELENGTH_NM
   \<and> map_sum id (map Band \<circ> sort_values)
        (DataFrame BANDS WAVELENGTH_NM [0.1, 0.2, 0.3, 0.4, 0.5, 0.6]) = Inr BANDS"
  by (simp add: WAVELENGTH_NM_def BANDS_def DataFrame_def sort_values_def)

text \<open>
  Claim C7, amended. The registry's wavelengths are strictly ascending in declaration
  order, so for every pixel of the raster the sort by wavelength leaves the rows as the
  frame was built: the spectrum is the unsorted frame, with the bands in declaration order.
\<close>

theorem spectrum_keeps_registry_order:
  assumes "row < ROWS" and "col < COLS"
  shows "sorted_wrt (<) WAVELENGTH_NM
         \<and> spectrum (raster_of dr nm) row col =
             DataFrame BANDS WAVELENGTH_NM (map (\<lambda>band. band ! row ! col) (raster_of dr nm))
         \<and> map_sum id (map Band) (spectrum (raster_of dr nm) row col) = Inr BANDS"
proof -
  let ?ps = "map (\<lambda>band. band ! row ! col) (raster_of dr nm)"
  have len: "length ?ps = 6" using raster_of_shape6 [of dr nm] by (simp add: has_shape_def)
  from DataFrame_registry_ok [OF len] obtain d where d: "DataFrame BANDS WAVELENGTH_NM ?ps = Inr d"
    by blast
  have s: "spectrum (raster_of dr nm) row col = DataFrame BANDS WAVELENGTH_NM ?ps"
    using spectrum_unsorted [OF raster_of_shape6 [of dr nm] assms] .
  have "map_sum id (map Band) (spectrum (raster_of dr nm) row col) = Inr BANDS"
    using sort_values_registry(2) [OF len d] by (simp add: s d)
  moreover have "sorted_wrt (<) WAVELENGTH_NM" by (simp add: WAVELENGTH_NM_def)
  ultimately show ?thesis using s by simp
qed

theorem spectrum_keeps_registry_order_witness:
  "sorted_wrt (<) WAVELENGTH_NM
   \<and> spectrum (raster_of (\<lambda>n::nat. n) (\<lambda>loc scale s. (loc, Suc s))) 1 2 =
       DataFrame BANDS WAVELENGTH_NM
         (map (\<lambda>band. band ! 1 ! 2) (raster_of (\<lambda>n::nat. n) (\<lambda>loc scale s. (loc, Suc s))))
   \<and> map_sum id (map Band)
        (spectrum (raster_of (\<lambda>n::nat. n) (\<lambda>loc scale s. (loc, Suc s))) 1 2) = Inr BANDS"
proof -
  have "(1::nat) < ROWS" and "(2::nat) < COLS" by (simp_all add: ROWS_def COLS_def)
  from spectrum_keeps_registry_order
    [OF this, where dr = "\<lambda>n::nat. n" and nm = "\<lambda>loc scale s. (loc, Suc s)"]
  show ?thesis .
qed

section \<open>Band statistics\<close>

lemma grid_concat_length:
  assumes "is_grid g ROWS COLS"
  shows "length (concat g) = 9"
proof -
  from assms have "length g = 3" by (simp add: is_grid_def ROWS_def)
  from list3 [OF this] obtain r0 r1 r2 where g: "g = [r0, r1, r2]" by blast
  then have "length r0 = 3" "length r1 = 3" "length r2 = 3"
    using assms by (simp_all add: is_grid_def COLS_def)
  then show ?thesis by (simp add: g)
qed

lemma amin_Min: "xs \<noteq> [] \<Longrightarrow> amin xs = Inr (Min (set xs))"
  by (cases xs) (simp_all add: amin_def Min.set_eq_fold [symmetric])

lemma amax_Max: "xs \<noteq> [] \<Longrightarrow> amax xs = Inr (Max (set xs))"
  by (cases xs) (simp_all add: amax_def Max.set_eq_fold [symmetric])

lemma band_record_summary:
  assumes "is_grid g ROWS COLS"
  shows "band_record name g = Inr (summary name g)"
proof -
  have len: "length (concat g) = 9" using grid_concat_length [OF assms] .
  then have "length (concat g) \<noteq> 0" by simp
  then have ne: "concat g \<noteq> []" by (simp only: length_0_conv not_False_eq_True)
  have "amean (concat g) = Finite (sum_list (concat g) / real (length (concat g)))"
    by (simp add: amean_def fdiv_def len)
  then show ?thesis
    by (simp add: band_record_def summary_def amin_Min [OF ne] amax_Max [OF ne])
qed

lemma stats_loop_summary:
  assumes "list_all (\<lambda>(b, name). b < length a \<and> is_grid (a ! b) ROWS COLS) bs"
  shows "stats_loop a bs = Inr (map (\<lambda>(b, name). summary name (a ! b)) bs)"
  using assms
proof (induction bs)
  case Nil
  then show ?case by simp
next
  case (Cons p bs)
  obtain b name where p: "p = (b, name)" by (cases p)
  from Cons.prems have "b < length a" and "is_grid (a ! b) ROWS COLS" by (simp_all add: p)
  moreover from Cons have "stats_loop a bs = Inr (map (\<lambda>(b, name). summary name (a ! b)) bs)"
    by simp
  ultimately show ?case by (simp add: p band_record_summary)
qed

lemma band_statistics_summary:
  assumes "has_shape a 6 ROWS COLS"
  shows "band_statistics a = Inr (map2 summary BANDS a)"
proof -
  from assms have "length a = 6" by (simp add: has_shape_def)
  from list6 [OF this] obtain b0 b1 b2 b3 b4 b5 where a: "a = [b0, b1, b2, b3, b4, b5]" by blast
  have "list_all (\<lambda>(b, name). b < length a \<and> is_grid (a ! b) ROWS COLS) (enumerate 0 BANDS)"
    using assms by (simp add: a BANDS_def has_shape_def)
  from stats_loop_summary [OF this] show ?thesis
    by (simp add: band_statistics_def a BANDS_def)
qed






section \<open>The script as a whole\<close>

lemma spectrum_rows:
  assumes "has_shape a 6 nr nc" and "row < nr" and "col < nc"
  shows "spectrum a row col =
     Inr [\<lparr>Band = ''Blue'', Wavelength_nm = 490, Reflectance = a ! 0 ! row ! col\<rparr>,
          \<lparr>Band = ''Green'', Wavelength_nm = 560, Reflectance = a ! 1 ! row ! col\<rparr>,
          \<lparr>Band = ''Red'', Wavelength_nm = 665, Reflectance = a ! 2 ! row ! col\<rparr>,
          \<lparr>Band = ''NIR'', Wavelength_nm = 865, Reflectance = a ! 3 ! row ! col\<rparr>,
          \<lparr>Band = ''SWIR1'', Wavelength_nm = 1610, Reflectance = a ! 4 ! row ! col\<rparr>,
          \<lparr>Band = ''SWIR2'', Wavelength_nm = 2200, Reflectance = a ! 5 ! row ! col\<rparr>]"
proof -
  from assms(1) have "length a = 6" by (simp add: has_shape_def)
  from list6 [OF this] obtain b0 b1 b2 b3 b4 b5 where a: "a = [b0, b1, b2, b3, b4, b5]" by blast
  show ?thesis
    unfolding spectrum_unsorted [OF assms]
    by (simp add: a DataFrame_def BANDS_def WAVELENGTH_NM_def)
qed

lemma ndvi_rows:
  "ndvi [\<lparr>Band = ''Blue'', Wavelength_nm = w0, Reflectance = p0\<rparr>,
         \<lparr>Band = ''Green'', Wavelength_nm = w1, Reflectance = p1\<rparr>,
         \<lparr>Band = ''Red'', Wavelength_nm = w2, Reflectance = p2\<rparr>,
         \<lparr>Band = ''NIR'', Wavelength_nm = w3, Reflectance = p3\<rparr>,
         \<lparr>Band = ''SWIR1'', Wavelength_nm = w4, Reflectance = p4\<rparr>,
         \<lparr>Band = ''SWIR2'', Wavelength_nm = w5, Reflectance = p5\<rparr>]
   = Inr (fdiv (p3 - p2) (p3 + p2))"
  by (simp add: ndvi_def iloc0_def loc_reflectance_def)

lemma pixel_in_range: "pixel_row < ROWS" "pixel_col < COLS"
  by (simp_all add: pixel_row_def pixel_col_def ROWS_def COLS_def)

lemma script_ok:
  "\<exists>d v. spectrum (raster_of dr nm) pixel_row pixel_col = Inr d \<and> ndvi d = Inr v
     \<and> script dr nm =
         Inr \<lparr>out_raster = raster_of dr nm,
              out_lonlat = rowcol_to_xy (real pixel_row) (real pixel_col) X0 Y0 XRES YRES True,
              out_df = d, out_ndvi = v,
              out_stats = map2 summary BANDS (raster_of dr nm)\<rparr>"
proof -
  let ?a = "raster_of dr nm"
  have sh: "has_shape ?a 6 ROWS COLS" by (rule raster_of_shape6)
  obtain d where d: "spectrum ?a pixel_row pixel_col = Inr d"
    using spectrum_rows [OF sh pixel_in_range] by blast
  obtain v where v: "ndvi d = Inr v"
    using spectrum_rows [OF sh pixel_in_range] d ndvi_rows by auto
  show ?thesis
    using d v band_statistics_summary [OF sh] by (simp add: script_def Let_def)
qed

text \<open>
  Claim C1. For the fixed pixel (row 1, column 2) the script succeeds; in the sorted
  spectrum exactly one row is named NIR and exactly one Red, they carry the reflectances
  of bands 3 and 2 of the raster at that pixel, and the vegetation index is the quotient
  \<open>(nir - red) / (nir + red)\<close> of these two values.
\<close>

theorem ndvi_from_spectrum:
  "\<exists>out. script dr nm = Inr out
     \<and> spectrum (raster_of dr nm) pixel_row pixel_col = Inr (out_df out)
     \<and> ndvi (out_df out) = Inr (out_ndvi out)
     \<and> (let nir = raster_of dr nm ! 3 ! 1 ! 2; red = raster_of dr nm ! 2 ! 1 ! 2
        in filter (\<lambda>r. Band r = ''NIR'') (out_df out) =
             [\<lparr>Band = ''NIR'', Wavelength_nm = 865, Reflectance = nir\<rparr>]
         \<and> filter (\<lambda>r. Band r = ''Red'') (out_df out) =
             [\<lparr>Band = ''Red'', Wavelength_nm = 665, Reflectance = red\<rparr>]
         \<and> out_ndvi out = fdiv (nir - red) (nir + red)
         \<and> (nir + red \<noteq> 0 \<longrightarrow> out_ndvi out = Finite ((nir - red) / (nir + red))))"
proof -
  let ?a = "raster_of dr nm"
  have sh: "has_shape ?a 6 ROWS COLS" by (rule raster_of_shape6)
  note rows = spectrum_rows [OF sh pixel_in_range]
  from script_ok [of dr nm] obtain d v where d: "spectrum ?a pixel_row pixel_col = Inr d"
    and v: "ndvi d = Inr v"
    and s: "script dr nm =
         Inr \<lparr>out_raster = ?a,
              out_lonlat = rowcol_to_xy (real pixel_row) (real pixel_col) X0 Y0 XRES YRES True,
              out_df = d, out_ndvi = v, out_stats = map2 summary BANDS ?a\<rparr>"
    by blast
  have d': "d = [\<lparr>Band = ''Blue'', Wavelength_nm = 490, Reflectance = ?a ! 0 ! 1 ! 2\<rparr>,
          \<lparr>Band = ''Green'', Wavelength_nm = 560, Reflectance = ?a ! 1 ! 1 ! 2\<rparr>,
          \<lparr>Band = ''Red'', Wavelength_nm = 665, Reflectance = ?a ! 2 ! 1 ! 2\<rparr>,
          \<lparr>Band = ''NIR'', Wavelength_nm = 865, Reflectance = ?a ! 3 ! 1 ! 2\<rparr>,
          \<lparr>Band = ''SWIR1'', Wavelength_nm = 1610, Reflectance = ?a ! 4 ! 1 ! 2\<rparr>,
          \<lparr>Band = ''SWIR2'', Wavelength_nm = 2200, Reflectance = ?a ! 5 ! 1 ! 2\<rparr>]"
    using rows d by (simp add: pixel_row_def pixel_col_def)
  have v': "v = fdiv (?a ! 3 ! 1 ! 2 - ?a ! 2 ! 1 ! 2) (?a ! 3 ! 1 ! 2 + ?a ! 2 ! 1 ! 2)"
    using v unfolding d' ndvi_rows by simp
  have f1: "filter (\<lambda>r. Band r = ''NIR'') d =
             [\<lparr>Band = ''NIR'', Wavelength_nm = 865, Reflectance = ?a ! 3 ! 1 ! 2\<rparr>]"
    by (simp add: d')
  have f2: "filter (\<lambda>r. Band r = ''Red'') d =
             [\<lparr>Band = ''Red'', Wavelength_nm = 665, Reflectance = ?a ! 2 ! 1 ! 2\<rparr>]"
    by (simp add: d')
  have f3: "?a ! 3 ! 1 ! 2 + ?a ! 2 ! 1 ! 2 \<noteq> 0 \<longrightarrow>
      v = Finite ((?a ! 3 ! 1 ! 2 - ?a ! 2 ! 1 ! 2) / (?a ! 3 ! 1 ! 2 + ?a ! 2 ! 1 ! 2))"
    by (simp add: v' fdiv_def)
  show ?thesis
    unfolding s Let_def using d v v' f1 f2 f3 by simp
qed

theorem ndvi_from_spectrum_witness:
  "\<exists>out. script (\<lambda>n::nat. n) (\<lambda>loc scale s. (loc, Suc s)) = Inr out
      \<and> out_ndvi out = Finite (1 / 3)"
proof -
  let ?dr = "\<lambda>n::nat. n" and ?nm = "\<lambda>(loc::real) (scale::real) (s::nat). (loc, Suc s)"
  have nir: "raster_of ?dr ?nm ! 3 ! 1 ! 2 = 0.48" by code_simp
  have red: "raster_of ?dr ?nm ! 2 ! 1 ! 2 = 0.24" by code_simp
  from ndvi_from_spectrum [of ?dr ?nm] obtain out where "script ?dr ?nm = Inr out"
    and "raster_of ?dr ?nm ! 3 ! 1 ! 2 + raster_of ?dr ?nm ! 2 ! 1 ! 2 \<noteq> 0 \<longrightarrow>
         out_ndvi out = Finite ((raster_of ?dr ?nm ! 3 ! 1 ! 2 - raster_of ?dr ?nm ! 2 ! 1 ! 2)
           / (raster_of ?dr ?nm ! 3 ! 1 ! 2 + raster_of ?dr ?nm ! 2 ! 1 ! 2))"
    unfolding Let_def by blast
  then show ?thesis unfolding nir red by simp
qed

text \<open>
  Claim C2. After synthesis the raster has shape (6, 3, 3) and every element lies between
  0 and 1; the script succeeds, and the raster it ends with is this raster.
\<close>

theorem raster_in_unit_interval:
  "has_shape (raster_of dr nm) 6 3 3
   \<and> list_all (list_all (list_all (\<lambda>x. 0 \<le> x \<and> x \<le> 1))) (raster_of dr nm)
   \<and> (\<exists>out. script dr nm = Inr out \<and> out_raster out = raster_of dr nm)"
proof -
  have "has_shape (raster_of dr nm) 6 3 3"
    using raster_of_shape6 [of dr nm] by (simp add: ROWS_def COLS_def)
  moreover have "\<exists>out. script dr nm = Inr out \<and> out_raster out = raster_of dr nm"
    using script_ok [of dr nm] by auto
  ultimately show ?thesis using raster_of_range [of dr nm] by simp
qed

section \<open>Determinism of the synthesis\<close>












end
